theory Spec2Isabelle
  imports Complex_Main "HOL-Library.AList" "HOL-Library.Multiset" "HOL-Library.Sublist"
begin

section \<open>Sliding-window rate limiter (utils.py, class RateLimiter)\<close>

text \<open>
  The limiter keeps, per identifier, a deque of the times of the admitted requests
  (\<^verbatim>\<open>self.requests = defaultdict(deque)\<close>: a missing identifier reads as the empty
  deque, so the store is a total function). \<^verbatim>\<open>time.time()\<close> is the clock; the model
  takes the value read as the argument \<open>now\<close>, a real number; the rounding of
  floating-point subtraction is not modelled.
\<close>

record RateLimiter =
  max_requests :: int
  window_seconds :: int
  requests :: "string \<Rightarrow> real list"

definition RateLimiter_init :: "int \<Rightarrow> int \<Rightarrow> RateLimiter" where
  "RateLimiter_init m w = \<lparr>max_requests = m, window_seconds = w, requests = (\<lambda>_. [])\<rparr>"

text \<open>
  The eviction loop
  \<^verbatim>\<open>while self.requests[identifier] and self.requests[identifier][0] < window_start: popleft()\<close>.
\<close>

fun popleft_old :: "real \<Rightarrow> real list \<Rightarrow> real list" where
  "popleft_old window_start [] = []"
| "popleft_old window_start (t # q) =
     (if t < window_start then popleft_old window_start q else t # q)"

definition is_allowed :: "RateLimiter \<Rightarrow> string \<Rightarrow> real \<Rightarrow> bool \<times> RateLimiter" where
  "is_allowed self identifier now =
     (let window_start = now - real_of_int (window_seconds self);
          q = popleft_old window_start (requests self identifier)
      in if int (length q) < max_requests self
         then (True, self\<lparr>requests := (requests self)(identifier := q @ [now])\<rparr>)
         else (False, self\<lparr>requests := (requests self)(identifier := q)\<rparr>))"

text \<open>A sequence of calls, each with its identifier and the clock value it reads.\<close>

fun is_allowed_calls :: "RateLimiter \<Rightarrow> (string \<times> real) list \<Rightarrow> bool list \<times> RateLimiter" where
  "is_allowed_calls self [] = ([], self)"
| "is_allowed_calls self (c # cs) =
     (let (r, self') = is_allowed self (fst c) (snd c);
          (rs, self'') = is_allowed_calls self' cs
      in (r # rs, self''))"

text \<open>
  The times of the calls that returned true for one identifier, read off a sequence of
  calls and the results it produced.
\<close>

definition admitted_times :: "(string \<times> real) list \<Rightarrow> bool list \<Rightarrow> string \<Rightarrow> real list" where
  "admitted_times calls results identifier =
     map (snd \<circ> fst) (filter (\<lambda>(c, r). fst c = identifier \<and> r) (zip calls results))"

text \<open>A time \<open>t\<close> lies in the trailing span of length \<open>w\<close> that ends at \<open>T\<close>.\<close>

definition in_span :: "real \<Rightarrow> real \<Rightarrow> real \<Rightarrow> bool" where
  "in_span w T t \<longleftrightarrow> T - w \<le> t \<and> t \<le> T"

section \<open>Proxy chain rotation (utils.py, class ProxyChain)\<close>

text \<open>
  A proxy configuration is a Python \<^verbatim>\<open>Dict[str, str]\<close>: an association list in insertion
  order. \<^verbatim>\<open>d.get(k, default)\<close> is \<open>dict_get\<close>.
\<close>

type_synonym pydict = "(string \<times> string) list"

definition dict_get :: "pydict \<Rightarrow> string \<Rightarrow> string \<Rightarrow> string" where
  "dict_get d k dflt = (case map_of d k of None \<Rightarrow> dflt | Some v \<Rightarrow> v)"

text \<open>\<^verbatim>\<open>proxy_id = f"{proxy.get('http', '')}_{proxy.get('https', '')}"\<close>\<close>

definition proxy_id :: "pydict \<Rightarrow> string" where
  "proxy_id proxy = dict_get proxy ''http'' [] @ ''_'' @ dict_get proxy ''https'' []"

datatype error = IndexError

record ProxyChain =
  proxies :: "pydict list"
  current_index :: nat
  failed_proxies :: "string set"

definition ProxyChain_init :: "pydict list \<Rightarrow> ProxyChain" where
  "ProxyChain_init ps = \<lparr>proxies = ps, current_index = 0, failed_proxies = {}\<rparr>"

text \<open>
  The loop \<^verbatim>\<open>for _ in range(len(self.proxies))\<close> of \<^verbatim>\<open>get_next_proxy\<close>, with the number of
  iterations left as the first argument. It ends with \<open>Some proxy\<close> at the
  \<^verbatim>\<open>return proxy\<close> inside the loop and with \<open>None\<close> when the range is used up.
  \<^verbatim>\<open>self.proxies[self.current_index]\<close> raises IndexError out of range; \<open>current_index\<close> is
  only ever 0 or a remainder, so it is a natural number.
\<close>

fun scan_proxies :: "nat \<Rightarrow> ProxyChain \<Rightarrow> error + (pydict option \<times> ProxyChain)" where
  "scan_proxies 0 self = Inr (None, self)"
| "scan_proxies (Suc k) self =
     (if current_index self < length (proxies self) then
        (let proxy = proxies self ! current_index self;
             self' = self\<lparr>current_index := (current_index self + 1) mod length (proxies self)\<rparr>
         in if proxy_id proxy \<notin> failed_proxies self' then Inr (Some proxy, self')
            else scan_proxies k self')
      else Inl IndexError)"

definition get_next_proxy :: "ProxyChain \<Rightarrow> error + (pydict option \<times> ProxyChain)" where
  "get_next_proxy self =
     (if proxies self = [] then Inr (None, self)
      else case scan_proxies (length (proxies self)) self of
             Inl e \<Rightarrow> Inl e
           | Inr (Some proxy, self') \<Rightarrow> Inr (Some proxy, self')
           | Inr (None, self') \<Rightarrow>
               Inr (if proxies self' \<noteq> [] then Some (proxies self' ! 0) else None,
                    self'\<lparr>failed_proxies := {}\<rparr>))"

definition mark_proxy_failed :: "ProxyChain \<Rightarrow> pydict \<Rightarrow> ProxyChain" where
  "mark_proxy_failed self proxy =
     self\<lparr>failed_proxies := insert (proxy_id proxy) (failed_proxies self)\<rparr>"

text \<open>Consecutive \<^verbatim>\<open>get_next_proxy\<close> calls with nothing in between; the results in call order.\<close>

fun get_next_proxy_calls :: "nat \<Rightarrow> ProxyChain \<Rightarrow> error + (pydict option list \<times> ProxyChain)" where
  "get_next_proxy_calls 0 self = Inr ([], self)"
| "get_next_proxy_calls (Suc k) self =
     (case get_next_proxy self of
        Inl e \<Rightarrow> Inl e
      | Inr (p, self') \<Rightarrow>
          (case get_next_proxy_calls k self' of
             Inl e \<Rightarrow> Inl e
           | Inr (ps, self'') \<Rightarrow> Inr (p # ps, self'')))"

section \<open>Header names\<close>

text \<open>
  Lower-casing of ASCII letters, used wherever header names are compared without regard to
  letter case (\<^verbatim>\<open>str.lower()\<close> restricted to the ASCII range of header names).
\<close>

definition lower_char :: "char \<Rightarrow> char" where
  "lower_char c =
     (case map_of (zip ''ABCDEFGHIJKLMNOPQRSTUVWXYZ'' ''abcdefghijklmnopqrstuvwxyz'') c of
        None \<Rightarrow> c
      | Some l \<Rightarrow> l)"

definition lower :: "string \<Rightarrow> string" where
  "lower s = map lower_char s"

text \<open>The names of a header mapping, and whether one of them is \<open>name\<close> in some letter case.\<close>

definition has_header_ci :: "pydict \<Rightarrow> string \<Rightarrow> bool" where
  "has_header_ci headers name \<longleftrightarrow> lower name \<in> set (map (lower \<circ> fst) headers)"

section \<open>Header transformer (proxy-server module and HeaderUtils)\<close>

text \<open>
  The configuration dictionary of the server, with the keys the request path reads.
\<close>

record Config =
  remove_headers :: "string list"
  add_headers :: pydict
  user_agents :: "string list"
  rate_limit_enabled :: bool
  requests_per_minute :: int

text \<open>The values of \<^verbatim>\<open>_default_config\<close> for these keys.\<close>

definition default_config :: Config where
  "default_config =
     \<lparr>remove_headers = [''X-Forwarded-For'', ''X-Real-IP'', ''X-Originating-IP'', ''CF-Connecting-IP''],
      add_headers = [(''X-Proxy-Server'', ''CustomProxy/1.0''),
                     (''Accept-Encoding'', ''gzip, deflate''),
                     (''Connection'', ''close'')],
      user_agents = [''Mozilla/5.0 (Windows NT 10.0; Win64; x64) AppleWebKit/537.36'',
                     ''Mozilla/5.0 (Macintosh; Intel Mac OS X 10_15_7) AppleWebKit/537.36'',
                     ''Mozilla/5.0 (X11; Linux x86_64) AppleWebKit/537.36''],
      rate_limit_enabled = False,
      requests_per_minute = 60\<rparr>"

text \<open>
  Operations of a plain \<^verbatim>\<open>dict\<close>: \<^verbatim>\<open>d.pop(k, None)\<close> removes the entry whose key is exactly
  \<open>k\<close>, \<^verbatim>\<open>d[k] = v\<close> overwrites in place or appends, \<^verbatim>\<open>d.update(other)\<close> stores the
  entries of \<open>other\<close> in order, \<^verbatim>\<open>k in d\<close> looks for exactly \<open>k\<close>.
\<close>

definition dict_pop :: "string \<Rightarrow> pydict \<Rightarrow> pydict" where
  "dict_pop k d = AList.delete k d"

definition dict_set :: "string \<Rightarrow> string \<Rightarrow> pydict \<Rightarrow> pydict" where
  "dict_set k v d = AList.update k v d"

definition dict_update :: "pydict \<Rightarrow> pydict \<Rightarrow> pydict" where
  "dict_update other d = fold (\<lambda>(k, v). dict_set k v) other d"

definition dict_contains :: "pydict \<Rightarrow> string \<Rightarrow> bool" where
  "dict_contains d k \<longleftrightarrow> map_of d k \<noteq> None"

text \<open>\<^verbatim>\<open>random.choice(seq)\<close> on a non-empty sequence, with the random draw \<open>r\<close> as an argument.\<close>

definition random_choice :: "'a list \<Rightarrow> nat \<Rightarrow> 'a" where
  "random_choice xs r = xs ! (r mod length xs)"

text \<open>
  \<^verbatim>\<open>_prepare_headers\<close>: \<^verbatim>\<open>headers = dict(original_headers)\<close> is a plain dictionary, so the
  removals compare names exactly.
\<close>

definition prepare_headers :: "Config \<Rightarrow> pydict \<Rightarrow> nat \<Rightarrow> pydict" where
  "prepare_headers config original_headers r =
     (let headers = original_headers;
          headers = fold dict_pop (remove_headers config) headers;
          headers = dict_pop ''Host'' headers;
          headers = dict_pop ''Content-Length'' headers;
          headers = dict_update (add_headers config) headers
      in if \<not> dict_contains headers ''User-Agent'' \<and> user_agents config \<noteq> []
         then dict_set ''User-Agent'' (random_choice (user_agents config) r) headers
         else headers)"

definition PRIVACY_HEADERS :: "string list" where
  "PRIVACY_HEADERS =
     [''X-Forwarded-For'', ''X-Real-IP'', ''X-Originating-IP'', ''CF-Connecting-IP'',
      ''X-Forwarded-Proto'', ''X-Forwarded-Host'', ''X-Forwarded-Port'', ''Via'', ''Forwarded'',
      ''X-Client-IP'', ''X-Cluster-Client-IP'', ''X-Remote-Addr'', ''X-Remote-IP'']"

definition sanitize_headers :: "pydict \<Rightarrow> bool \<Rightarrow> pydict" where
  "sanitize_headers headers remove_privacy =
     (let clean_headers = headers;
          clean_headers = (if remove_privacy then fold dict_pop PRIVACY_HEADERS clean_headers
                           else clean_headers)
      in fold dict_pop [''Host'', ''Content-Length''] clean_headers)"

section \<open>Target resolution (proxy-server module)\<close>

text \<open>
  The parts of the Flask request the handler reads. \<^verbatim>\<open>request.args.get(k)\<close> is the first
  value stored under exactly \<open>k\<close>; \<^verbatim>\<open>request.headers.get(k)\<close> is the first value whose name
  is \<open>k\<close> in any letter case (Werkzeug header objects ignore case).
\<close>

record Request =
  req_method :: string
  req_args :: pydict
  req_headers :: pydict
  req_data :: string
  remote_addr :: string

definition args_get :: "pydict \<Rightarrow> string \<Rightarrow> string option" where
  "args_get args k = map_of args k"

definition headers_get :: "pydict \<Rightarrow> string \<Rightarrow> string option" where
  "headers_get headers k = map_of (map (\<lambda>(n, v). (lower n, v)) headers) (lower k)"

text \<open>Python truth of an optional string: neither \<^verbatim>\<open>None\<close> nor empty.\<close>

definition truthy :: "string option \<Rightarrow> bool" where
  "truthy s \<longleftrightarrow> (case s of None \<Rightarrow> False | Some v \<Rightarrow> v \<noteq> [])"

definition get_target_url :: "Request \<Rightarrow> string \<Rightarrow> string option" where
  "get_target_url request path =
     (let target_url = args_get (req_args request) ''url'' in
      if truthy target_url then target_url
      else
        let target_url = headers_get (req_headers request) ''X-Target-URL'' in
        if truthy target_url then target_url
        else if path \<noteq> [] then
          Some (if \<not> (prefix ''http://'' path \<or> prefix ''https://'' path)
                then ''http://'' @ path else path)
        else None)"

section \<open>Response builder (proxy-server module)\<close>

text \<open>
  \<^verbatim>\<open>response.headers\<close> of a Flask response is a Werkzeug header list: an ordered list of
  (name, value) pairs whose operations compare names without regard to letter case.
  \<^verbatim>\<open>pop(key, None)\<close> removes every entry of that name; \<^verbatim>\<open>headers[key] = value\<close> replaces
  the first entry of that name and removes the others, or appends when there is none.
\<close>

definition headers_pop :: "string \<Rightarrow> pydict \<Rightarrow> pydict" where
  "headers_pop key headers = filter (\<lambda>(k, v). lower k \<noteq> lower key) headers"

fun headers_set :: "string \<Rightarrow> string \<Rightarrow> pydict \<Rightarrow> pydict" where
  "headers_set key val [] = [(key, val)]"
| "headers_set key val (h # hs) =
     (if lower (fst h) = lower key then (key, val) # headers_pop key hs
      else h # headers_set key val hs)"

datatype body = Bytes string | Json_error string

record UpstreamResponse =
  content :: string
  status_code :: int
  up_headers :: pydict

record Response =
  data :: body
  status :: int
  resp_headers :: pydict

text \<open>\<^verbatim>\<open>str(n)\<close> for a length: the decimal digits of a natural number.\<close>

definition digit_char :: "nat \<Rightarrow> char" where
  "digit_char d = ''0123456789'' ! d"

function str_nat :: "nat \<Rightarrow> string" where
  "str_nat n = (if n < 10 then [digit_char n] else str_nat (n div 10) @ [digit_char (n mod 10)])"
  by pat_completeness auto
termination
  by (relation "measure id") auto

text \<open>
  The constructor call \<^verbatim>\<open>Response(content, status=status_code, headers=dict(headers))\<close>.
  Besides storing its arguments, the Flask/Werkzeug constructor sets \<open>Content-Type\<close> to
  the default \<open>text/html; charset=utf-8\<close> when the given headers have no Content-Type, and,
  the body being a byte string, sets \<open>Content-Length\<close> to the length of the body.
\<close>

definition Response_init :: "string \<Rightarrow> int \<Rightarrow> pydict \<Rightarrow> Response" where
  "Response_init response st headers =
     (let headers = (if has_header_ci headers ''Content-Type'' then headers
                     else headers_set ''Content-Type'' ''text/html; charset=utf-8'' headers);
          headers = headers_set ''Content-Length'' (str_nat (length response)) headers
      in \<lparr>data = Bytes response, status = st, resp_headers = headers\<rparr>)"

definition create_response :: "UpstreamResponse \<Rightarrow> Response" where
  "create_response upstream_response =
     (let response = Response_init (content upstream_response)
                       (status_code upstream_response) (up_headers upstream_response);
          response = response\<lparr>resp_headers := headers_pop ''Content-Encoding'' (resp_headers response)\<rparr>;
          response = response\<lparr>resp_headers := headers_pop ''Transfer-Encoding'' (resp_headers response)\<rparr>;
          response = response\<lparr>resp_headers := headers_pop ''Connection'' (resp_headers response)\<rparr>
      in response\<lparr>resp_headers :=
           headers_set ''X-Proxied-By'' ''CustomProxy/1.0'' (resp_headers response)\<rparr>)"

section \<open>Request pipeline (proxy-server module)\<close>

text \<open>
  What the \<^verbatim>\<open>try\<close> block of the handler can raise: \<^verbatim>\<open>requests.RequestException\<close>, caught
  by the first handler, and any other \<^verbatim>\<open>Exception\<close>, caught by the second; each carries
  its message. The network is the argument \<open>session\<close>: what
  \<^verbatim>\<open>self.session.request(method, url, headers, data, params)\<close> returns or raises.
\<close>

datatype exn = RequestException string | OtherException string

type_synonym session =
  "string \<Rightarrow> string \<Rightarrow> pydict \<Rightarrow> string \<Rightarrow> pydict \<Rightarrow> exn + UpstreamResponse"

record ProxyServer =
  config :: Config
  request_count :: nat

text \<open>\<^verbatim>\<open>jsonify({'error': message}), status\<close>\<close>

definition jsonify_error :: "string \<Rightarrow> int \<Rightarrow> Response" where
  "jsonify_error message st =
     \<lparr>data = Json_error message, status = st,
      resp_headers = [(''Content-Type'', ''application/json'')]\<rparr>"

text \<open>
  \<^verbatim>\<open>_rate_limit_exceeded\<close>: both paths of the source return \<^verbatim>\<open>False\<close>; the second one is
  marked there as a placeholder.
\<close>

definition rate_limit_exceeded :: "ProxyServer \<Rightarrow> bool" where
  "rate_limit_exceeded self =
     (if \<not> rate_limit_enabled (config self) then False else False)"

definition make_request ::
  "session \<Rightarrow> string \<Rightarrow> string \<Rightarrow> pydict \<Rightarrow> string \<Rightarrow> pydict \<Rightarrow> exn + UpstreamResponse" where
  "make_request session method url headers dat params = session method url headers dat params"

text \<open>
  The body of the \<^verbatim>\<open>try\<close> block after the counter is incremented. The argument
  \<open>limited\<close> is the value \<^verbatim>\<open>self._rate_limit_exceeded()\<close> returns at the rate-limit check.
\<close>

definition handle_request_try ::
  "ProxyServer \<Rightarrow> bool \<Rightarrow> session \<Rightarrow> nat \<Rightarrow> Request \<Rightarrow> string \<Rightarrow> exn + Response" where
  "handle_request_try self limited session r request path =
     (case get_target_url request path of
        None \<Rightarrow> Inr (jsonify_error ''No target URL specified'' 400)
      | Some target_url \<Rightarrow>
          if target_url = [] then Inr (jsonify_error ''No target URL specified'' 400)
          else
            let headers = prepare_headers (config self) (req_headers request) r in
            if limited then Inr (jsonify_error ''Rate limit exceeded'' 429)
            else
              (case make_request session (req_method request) target_url headers
                      (req_data request) (req_args request) of
                 Inl e \<Rightarrow> Inl e
               | Inr response \<Rightarrow> Inr (create_response response)))"

text \<open>
  The two \<^verbatim>\<open>except\<close> clauses, applied to the outcome of the \<^verbatim>\<open>try\<close> block: a response
  returned there is returned as it is, an exception raised anywhere in the block is
  answered by the first clause that matches it.
\<close>

definition except_clauses :: "exn + Response \<Rightarrow> Response" where
  "except_clauses outcome =
     (case outcome of
        Inr response \<Rightarrow> response
      | Inl (RequestException e) \<Rightarrow> jsonify_error (''Request failed: '' @ e) 502
      | Inl (OtherException e) \<Rightarrow> jsonify_error ''Internal proxy error'' 500)"

text \<open>\<^verbatim>\<open>_handle_request\<close>: the counter, the \<^verbatim>\<open>try\<close> block and its two handlers.\<close>

definition handle_request ::
  "ProxyServer \<Rightarrow> session \<Rightarrow> nat \<Rightarrow> Request \<Rightarrow> string \<Rightarrow> Response \<times> ProxyServer" where
  "handle_request self session r request path =
     (let self' = self\<lparr>request_count := request_count self + 1\<rparr> in
      (except_clauses
         (handle_request_try self' (rate_limit_exceeded self') session r request path),
       self'))"

section \<open>Concrete inputs used in the examples\<close>

text \<open>
  The names the response builder removes or sets itself, and those together with the
  Content-Length header the constructor sets.
\<close>

definition response_only_names :: "string list" where
  "response_only_names =
     [''Content-Encoding'', ''Transfer-Encoding'', ''Connection'', ''X-Proxied-By'']"

definition reframed_names :: "string list" where
  "reframed_names = ''Content-Length'' # response_only_names"

definition example_calls :: "(string \<times> real) list" where
  "example_calls = [(''A'', 0), (''A'', 10), (''B'', 15), (''A'', 20), (''A'', 61)]"

definition proxy_a :: pydict where
  "proxy_a = [(''http'', ''http://a:3128''), (''https'', ''http://a:3128'')]"

definition proxy_b :: pydict where
  "proxy_b = [(''http'', ''http://b:3128'')]"

definition proxy_c :: pydict where
  "proxy_c = [(''https'', ''http://c:3128'')]"

definition example_chain :: ProxyChain where
  "example_chain = \<lparr>proxies = [proxy_a, proxy_b, proxy_c], current_index = 1, failed_proxies = {}\<rparr>"

definition failed_chain :: ProxyChain where
  "failed_chain =
     example_chain\<lparr>failed_proxies := {proxy_id proxy_a, proxy_id proxy_b, proxy_id proxy_c}\<rparr>"

definition example_request :: Request where
  "example_request =
     \<lparr>req_method = ''GET'', req_args = [(''url'', ''http://a.example/q'')],
      req_headers = [(''User-Agent'', ''curl/8.5.0''), (''x-target-url'', ''http://b.example/h'')],
      req_data = [], remote_addr = ''127.0.0.1''\<rparr>"

definition example_upstream :: UpstreamResponse where
  "example_upstream =
     \<lparr>content = ''ok'', status_code = 200,
      up_headers = [(''Content-Type'', ''text/plain''), (''Content-Encoding'', ''gzip''),
                    (''transfer-encoding'', ''chunked''), (''Connection'', ''keep-alive''),
                    (''Server'', ''nginx'')]\<rparr>"

definition ok_session :: session where
  "ok_session method url headers dat params = Inr example_upstream"

text \<open>An upstream answer whose Content-Length is that of the compressed body.\<close>

definition gzip_upstream :: UpstreamResponse where
  "gzip_upstream =
     \<lparr>content = ''hello'', status_code = 200,
      up_headers = [(''Content-Type'', ''text/plain''), (''Content-Length'', ''999''),
                    (''Content-Encoding'', ''gzip'')]\<rparr>"

definition timeout_session :: session where
  "timeout_session method url headers dat params = Inl (RequestException ''Read timed out'')"

definition broken_session :: session where
  "broken_session method url headers dat params = Inl (OtherException ''unexpected'')"

definition limited_server :: ProxyServer where
  "limited_server =
     \<lparr>config = default_config\<lparr>rate_limit_enabled := True, requests_per_minute := 1\<rparr>,
      request_count = 0\<rparr>"

section \<open>Rate limiter: the scenario with two requests per minute\<close>

text \<open>
  C8: with \<open>max_requests = 2\<close> and \<open>window_seconds = 60\<close>, four calls for one identifier at
  times 0, 10, 20 and 61 return true, true, false and true.
\<close>

theorem is_allowed_scenario_2_per_60:
  "fst (is_allowed_calls (RateLimiter_init 2 60)
         [(''A'', 0), (''A'', 10), (''A'', 20), (''A'', 61)])
   = [True, True, False, True]"
  by (simp add: is_allowed_def RateLimiter_init_def Let_def)

section \<open>Rate limiter: eviction and denial\<close>

lemma popleft_old_dropWhile: "popleft_old ws q = dropWhile (\<lambda>t. t < ws) q"
  by (induction q) simp_all

lemma popleft_old_split:
  "\<exists>ev. q = ev @ popleft_old ws q \<and> (\<forall>e\<in>set ev. e < ws)"
proof -
  have "q = takeWhile (\<lambda>t. t < ws) q @ popleft_old ws q"
    by (simp add: popleft_old_dropWhile)
  moreover have "\<forall>e\<in>set (takeWhile (\<lambda>t. t < ws) q). e < ws"
    by (auto dest: set_takeWhileD)
  ultimately show ?thesis by blast
qed

text \<open>On an ascending deque, trimming the front removes every timestamp before the window.\<close>

lemma dropWhile_sorted_filter:
  "sorted q \<Longrightarrow> dropWhile (\<lambda>t. t < ws) q = filter (\<lambda>t. (ws::real) \<le> t) q"
proof (induction q)
  case Nil
  then show ?case by simp
next
  case (Cons t q)
  show ?case
  proof (cases "t < ws")
    case True
    with Cons show ?thesis by simp
  next
    case False
    with Cons.prems have "\<forall>x\<in>set (t # q). ws \<le> x" by force
    then have "filter (\<lambda>t. ws \<le> t) (t # q) = t # q"
      by (simp only: filter_True)
    with False show ?thesis by simp
  qed
qed

text \<open>
  The deque stays ascending as long as the clock does not run backwards (the RateWindow
  invariant of the data model).
\<close>

lemma is_allowed_keeps_sorted:
  assumes "sorted (requests self i)" and "\<forall>t\<in>set (requests self i). t \<le> now"
  shows "sorted (requests (snd (is_allowed self i now)) i)"
proof -
  let ?q = "dropWhile (\<lambda>t. t < now - real_of_int (window_seconds self)) (requests self i)"
  have "sorted ?q" using assms(1) by (rule sorted_dropWhile)
  moreover have "\<forall>t\<in>set ?q. t \<le> now"
    using assms(2) by (auto dest: set_dropWhileD)
  ultimately have "sorted (?q @ [now])"
    by (simp add: sorted_append)
  with \<open>sorted ?q\<close> show ?thesis
    by (simp add: is_allowed_def Let_def popleft_old_dropWhile)
qed

text \<open>
  C9: every call first trims from the front of the identifier's deque the timestamps
  strictly older than \<open>now - window_seconds\<close> (on an ascending deque these are all the
  timestamps older than that); the call is allowed exactly when the remaining count is
  below \<open>max_requests\<close>; a denied call stores the trimmed deque with nothing appended, an
  allowed call stores it with \<open>now\<close> appended.
\<close>

theorem is_allowed_evicts_then_denies:
  "(let q = dropWhile (\<lambda>t. t < now - real_of_int (window_seconds self)) (requests self i)
    in (fst (is_allowed self i now) \<longleftrightarrow> int (length q) < max_requests self)
     \<and> requests (snd (is_allowed self i now)) i
         = (if fst (is_allowed self i now) then q @ [now] else q)
     \<and> (sorted (requests self i) \<longrightarrow>
          q = filter (\<lambda>t. now - real_of_int (window_seconds self) \<le> t) (requests self i)))"
  by (simp add: is_allowed_def Let_def popleft_old_dropWhile dropWhile_sorted_filter)

text \<open>
  A denied call at time 70 with two requests per 60 seconds: the deque \<open>[5, 20, 30]\<close> loses
  the timestamp 5 and is stored as \<open>[20, 30]\<close>.
\<close>

theorem is_allowed_evicts_then_denies_witness:
  "sorted [5, 20, 30 :: real]
   \<and> fst (is_allowed \<lparr>max_requests = 2, window_seconds = 60,
                       requests = (\<lambda>_. [])(''A'' := [5, 20, 30])\<rparr> ''A'' 70) = False
   \<and> requests (snd (is_allowed \<lparr>max_requests = 2, window_seconds = 60,
                       requests = (\<lambda>_. [])(''A'' := [5, 20, 30])\<rparr> ''A'' 70)) ''A'' = [20, 30]
   \<and> filter (\<lambda>t. 70 - real_of_int 60 \<le> t) [5, 20, 30] = [20, 30]"
  using is_allowed_evicts_then_denies
    [of 70 "\<lparr>max_requests = 2, window_seconds = 60, requests = (\<lambda>_. [])(''A'' := [5, 20, 30])\<rparr>" "''A''"]
  by (simp add: Let_def)

section \<open>Rate limiter: the sliding-window bound\<close>

lemma is_allowed_config [simp]:
  "max_requests (snd (is_allowed self i now)) = max_requests self"
  "window_seconds (snd (is_allowed self i now)) = window_seconds self"
  by (simp_all add: is_allowed_def Let_def)

text \<open>Calls for one identifier leave the deques of the others alone.\<close>

lemma is_allowed_other:
  "j \<noteq> i \<Longrightarrow> requests (snd (is_allowed self i now)) j = requests self j"
  by (simp add: is_allowed_def Let_def)

lemma is_allowed_calls_Cons:
  "fst (is_allowed_calls self (c # cs)) =
     fst (is_allowed self (fst c) (snd c))
     # fst (is_allowed_calls (snd (is_allowed self (fst c) (snd c))) cs)"
  by (simp add: case_prod_unfold Let_def)

lemma admitted_times_Cons:
  "admitted_times (c # cs) (r # rs) i =
     (if fst c = i \<and> r then [snd c] else []) @ admitted_times cs rs i"
  by (simp add: admitted_times_def)

text \<open>
  The invariant behind the bound, for one identifier \<open>i\<close>: the admitted times so far
  (\<open>past\<close>) end with the stored deque, what was trimmed (\<open>pre\<close>) is out of the window of
  every call still to come, and the deque is never longer than \<open>max_requests\<close>.
\<close>

lemma window_bound_gen:
  assumes "sorted (map snd calls)"
    and "past = pre @ requests self i"
    and "\<forall>p\<in>set pre. \<forall>c\<in>set calls. p < snd c - real_of_int (window_seconds self)"
    and "\<forall>p\<in>set past. \<forall>c\<in>set calls. p \<le> snd c"
    and "int (length (requests self i)) \<le> max_requests self"
    and "\<forall>T. int (length (filter (in_span (real_of_int (window_seconds self)) T) past))
           \<le> max_requests self"
  shows "int (length (filter (in_span (real_of_int (window_seconds self)) T)
           (past @ admitted_times calls (fst (is_allowed_calls self calls)) i)))
         \<le> max_requests self"
  using assms
proof (induction calls arbitrary: self past pre)
  case Nil
  then show ?case by (simp add: admitted_times_def)
next
  case (Cons c cs)
  define w where "w = real_of_int (window_seconds self)"
  define self' where "self' = snd (is_allowed self (fst c) (snd c))"
  define r where "r = fst (is_allowed self (fst c) (snd c))"
  have sorted_cs: "sorted (map snd cs)" and now_le: "\<forall>d\<in>set cs. snd c \<le> snd d"
    using Cons.prems(1) by auto
  have cfg: "max_requests self' = max_requests self" "window_seconds self' = window_seconds self"
    by (simp_all add: self'_def)
  show ?case
  proof (cases "fst c = i")
    case False
    then have same: "requests self' i = requests self i"
      by (simp add: self'_def is_allowed_other)
    have "int (length (filter (in_span (real_of_int (window_seconds self')) T)
           (past @ admitted_times cs (fst (is_allowed_calls self' cs)) i))) \<le> max_requests self'"
      using Cons.prems sorted_cs
      by (intro Cons.IH[where pre = pre]) (simp_all add: same cfg)
    moreover have "admitted_times (c # cs) (fst (is_allowed_calls self (c # cs))) i
        = admitted_times cs (fst (is_allowed_calls self' cs)) i"
      unfolding is_allowed_calls_Cons admitted_times_Cons self'_def using False by simp
    ultimately show ?thesis
      by (simp only: cfg)
  next
    case True
    obtain ev where ev: "requests self i = ev @ popleft_old (snd c - w) (requests self i)"
      "\<forall>e\<in>set ev. e < snd c - w"
      using popleft_old_split by blast
    define q where "q = popleft_old (snd c - w) (requests self i)"
    have r_eq: "r \<longleftrightarrow> int (length q) < max_requests self"
      by (simp add: r_def is_allowed_def Let_def q_def w_def True)
    have req': "requests self' i = (if r then q @ [snd c] else q)"
      by (simp add: self'_def r_def is_allowed_def Let_def q_def w_def True)
    have len_q: "int (length q) \<le> max_requests self"
    proof -
      have "length q \<le> length (requests self i)"
        using ev(1) by (metis q_def length_append le_add2)
      with Cons.prems(5) show ?thesis by linarith
    qed
    define past' where "past' = past @ (if r then [snd c] else [])"
    have past'_eq: "past' = (pre @ ev) @ requests self' i"
      using Cons.prems(2) ev(1) by (simp add: past'_def req' q_def)
    have pre'_old: "\<forall>p\<in>set (pre @ ev). \<forall>d\<in>set cs. p < snd d - real_of_int (window_seconds self')"
      using Cons.prems(3) ev(2) now_le by (fastforce simp: cfg w_def)
    have past'_le: "\<forall>p\<in>set past'. \<forall>d\<in>set cs. p \<le> snd d"
      using Cons.prems(4) now_le by (auto simp: past'_def)
    have len': "int (length (requests self' i)) \<le> max_requests self'"
      using len_q r_eq by (simp add: req' cfg)
    have bound': "\<forall>U. int (length (filter (in_span (real_of_int (window_seconds self')) U) past'))
        \<le> max_requests self'"
    proof
      fix U
      show "int (length (filter (in_span (real_of_int (window_seconds self')) U) past'))
        \<le> max_requests self'"
      proof (cases "r \<and> in_span w U (snd c)")
        case False
        then have "filter (in_span w U) past' = filter (in_span w U) past"
          by (auto simp: past'_def)
        with Cons.prems(6) show ?thesis by (simp add: cfg w_def)
      next
        case True
        then have r: r and span: "U - w \<le> snd c" "snd c \<le> U"
          by (simp_all add: in_span_def)
        have "\<forall>p\<in>set (pre @ ev). \<not> in_span w U p"
          using Cons.prems(3) ev(2) span by (fastforce simp: in_span_def w_def)
        then have "filter (in_span w U) (pre @ ev) = []"
          by (simp only: filter_empty_conv)
        moreover have "past = (pre @ ev) @ q"
          using Cons.prems(2) ev(1) by (simp add: q_def)
        ultimately have "filter (in_span w U) past = filter (in_span w U) q"
          by simp
        then have "length (filter (in_span w U) past) \<le> length q"
          by simp
        with r r_eq have "int (length (filter (in_span w U) past)) + 1 \<le> max_requests self"
          by linarith
        with r span show ?thesis
          by (simp add: past'_def cfg in_span_def flip: w_def)
      qed
    qed
    have "int (length (filter (in_span (real_of_int (window_seconds self')) T)
           (past' @ admitted_times cs (fst (is_allowed_calls self' cs)) i))) \<le> max_requests self'"
      using sorted_cs past'_eq pre'_old past'_le len' bound'
      by (rule Cons.IH)
    moreover have "past @ admitted_times (c # cs) (fst (is_allowed_calls self (c # cs))) i
        = past' @ admitted_times cs (fst (is_allowed_calls self' cs)) i"
      unfolding is_allowed_calls_Cons admitted_times_Cons self'_def past'_def r_def
      using True by simp
    ultimately show ?thesis
      by (simp only: cfg)
  qed
qed

text \<open>
  C2: on a fresh limiter with a non-negative \<open>max_requests\<close>, for every identifier and
  every sequence of calls (for any identifiers) made at non-decreasing times, the calls
  for that identifier that returned true and whose times lie in a span \<open>[T - window_seconds, T]\<close>
  are at most \<open>max_requests\<close>, whatever the end \<open>T\<close> of the span.
\<close>

theorem sliding_window_bound:
  assumes "sorted (map snd calls)" and "0 \<le> m"
  shows "int (length (filter (\<lambda>t. T - real_of_int w \<le> t \<and> t \<le> T)
           (admitted_times calls (fst (is_allowed_calls (RateLimiter_init m w) calls)) identifier)))
         \<le> m"
proof -
  let ?self = "RateLimiter_init m w"
  have "int (length (filter (in_span (real_of_int (window_seconds ?self)) T)
           ([] @ admitted_times calls (fst (is_allowed_calls ?self calls)) identifier)))
        \<le> max_requests ?self"
    using assms by (intro window_bound_gen[where pre = "[]"]) (simp_all add: RateLimiter_init_def)
  then show ?thesis
    by (simp add: RateLimiter_init_def in_span_def[abs_def])
qed

text \<open>
  Two requests per 60 seconds, calls for \<open>A\<close> at 0, 10, 20 and 61 with one call for \<open>B\<close> in
  between: the admitted times of \<open>A\<close> are 0, 10 and 61, and the span ending at 61 holds two
  of them.
\<close>

theorem sliding_window_bound_witness:
  "sorted (map snd example_calls) \<and> (0::int) \<le> 2
   \<and> admitted_times example_calls
        (fst (is_allowed_calls (RateLimiter_init 2 60) example_calls)) ''A'' = [0, 10, 61]
   \<and> int (length (filter (\<lambda>t. 61 - real_of_int 60 \<le> t \<and> t \<le> 61)
        (admitted_times example_calls
           (fst (is_allowed_calls (RateLimiter_init 2 60) example_calls)) ''A''))) \<le> 2"
  using sliding_window_bound [of example_calls 2 61 60 "''A''"]
  by (simp add: example_calls_def admitted_times_def is_allowed_def RateLimiter_init_def Let_def)

section \<open>Proxy chain: rotation and full reset\<close>

lemma next_index_in_range: "i < n \<Longrightarrow> Suc i mod n < (n::nat)"
proof -
  assume "i < n"
  then have "0 < n" by simp
  then show ?thesis by (rule mod_less_divisor)
qed

text \<open>
  With the index in range the scan never raises, keeps the pool and leaves the index in
  range: the ChainState invariant of the data model, established by \<open>ProxyChain_init\<close>.
\<close>

lemma scan_proxies_in_range:
  assumes "current_index self < length (proxies self)"
  shows "\<exists>res self'. scan_proxies k self = Inr (res, self')
           \<and> proxies self' = proxies self
           \<and> failed_proxies self' = failed_proxies self
           \<and> current_index self' < length (proxies self')"
  using assms
proof (induction k arbitrary: self)
  case 0
  then show ?case by simp
next
  case (Suc k)
  let ?self' = "self\<lparr>current_index := (current_index self + 1) mod length (proxies self)\<rparr>"
  have "\<exists>res self''. scan_proxies k ?self' = Inr (res, self'')
           \<and> proxies self'' = proxies ?self'
           \<and> failed_proxies self'' = failed_proxies ?self'
           \<and> current_index self'' < length (proxies self'')"
    using Suc.prems by (intro Suc.IH) (simp add: next_index_in_range)
  with Suc.prems show ?case
    by (auto simp: Let_def next_index_in_range)
qed

lemma get_next_proxy_in_range:
  assumes "current_index self < length (proxies self)"
  shows "\<exists>res self'. get_next_proxy self = Inr (res, self')
           \<and> proxies self' = proxies self
           \<and> current_index self' < length (proxies self')"
proof -
  obtain res self' where scan: "scan_proxies (length (proxies self)) self = Inr (res, self')"
    "proxies self' = proxies self" "current_index self' < length (proxies self')"
    using scan_proxies_in_range[OF assms] by blast
  with assms show ?thesis
    by (cases res) (auto simp: get_next_proxy_def)
qed

lemma ProxyChain_init_in_range:
  "ps \<noteq> [] \<Longrightarrow> current_index (ProxyChain_init ps) < length (proxies (ProxyChain_init ps))"
  by (simp add: ProxyChain_init_def)

lemma mark_proxy_failed_frame:
  "proxies (mark_proxy_failed self proxy) = proxies self"
  "current_index (mark_proxy_failed self proxy) = current_index self"
  by (simp_all add: mark_proxy_failed_def)

lemma scan_proxies_all_failed:
  assumes "\<forall>p\<in>set (proxies self). proxy_id p \<in> failed_proxies self"
    and "current_index self < length (proxies self)"
  shows "scan_proxies k self =
    Inr (None, self\<lparr>current_index := (current_index self + k) mod length (proxies self)\<rparr>)"
  using assms
proof (induction k arbitrary: self)
  case 0
  then show ?case by simp
next
  case (Suc k)
  let ?self' = "self\<lparr>current_index := (current_index self + 1) mod length (proxies self)\<rparr>"
  have failed: "proxy_id (proxies self ! current_index self) \<in> failed_proxies self"
    using Suc.prems by simp
  have "scan_proxies k ?self' =
    Inr (None, ?self'\<lparr>current_index := (current_index ?self' + k) mod length (proxies ?self')\<rparr>)"
    using Suc.prems by (intro Suc.IH) (simp_all add: next_index_in_range)
  with Suc.prems(2) failed show ?case
    by (simp add: mod_simps)
qed

text \<open>The whole effect of a call made while every endpoint is marked failed.\<close>

lemma get_next_proxy_full_reset:
  assumes "proxies self \<noteq> []"
    and "\<forall>p\<in>set (proxies self). proxy_id p \<in> failed_proxies self"
    and "current_index self < length (proxies self)"
  shows "get_next_proxy self = Inr (Some (proxies self ! 0), self\<lparr>failed_proxies := {}\<rparr>)"
  using assms by (simp add: get_next_proxy_def scan_proxies_all_failed)

text \<open>With nothing marked failed, a call returns the endpoint at the index and advances it.\<close>

lemma get_next_proxy_none_failed:
  assumes "failed_proxies self = {}"
    and "current_index self < length (proxies self)"
  shows "get_next_proxy self =
    Inr (Some (proxies self ! current_index self),
         self\<lparr>current_index := (current_index self + 1) mod length (proxies self)\<rparr>)"
proof -
  obtain k where k: "length (proxies self) = Suc k"
    using assms(2) by (cases "length (proxies self)") auto
  from assms(2) have "proxies self \<noteq> []" by auto
  then show ?thesis
    using assms by (simp add: get_next_proxy_def k Let_def)
qed

text \<open>
  C4: for a non-empty pool (with the rotation index in range), a call made while every
  endpoint's identifier is in the failed set returns the endpoint at index 0, not
  \<open>None\<close>, and leaves the failed set empty.
\<close>

theorem get_next_proxy_all_failed_returns_first:
  assumes "proxies self \<noteq> []"
    and "\<forall>p\<in>set (proxies self). proxy_id p \<in> failed_proxies self"
    and "current_index self < length (proxies self)"
  shows "\<exists>self'. get_next_proxy self = Inr (Some (proxies self ! 0), self')
           \<and> failed_proxies self' = {}"
  using get_next_proxy_full_reset[OF assms] by simp

text \<open>
  The pool \<open>a, b, c\<close> with the index at 1 and all three marked failed through
  \<open>mark_proxy_failed\<close>: the call returns \<open>a\<close>.
\<close>

theorem get_next_proxy_all_failed_returns_first_witness:
  "proxies (mark_proxy_failed (mark_proxy_failed (mark_proxy_failed example_chain proxy_a) proxy_b) proxy_c) \<noteq> []
   \<and> proxy_id proxy_a \<in> failed_proxies (mark_proxy_failed (mark_proxy_failed (mark_proxy_failed example_chain proxy_a) proxy_b) proxy_c)
   \<and> proxy_id proxy_b \<in> failed_proxies (mark_proxy_failed (mark_proxy_failed (mark_proxy_failed example_chain proxy_a) proxy_b) proxy_c)
   \<and> proxy_id proxy_c \<in> failed_proxies (mark_proxy_failed (mark_proxy_failed (mark_proxy_failed example_chain proxy_a) proxy_b) proxy_c)
   \<and> (\<exists>self'. get_next_proxy (mark_proxy_failed (mark_proxy_failed (mark_proxy_failed example_chain proxy_a) proxy_b) proxy_c)
                 = Inr (Some proxy_a, self')
              \<and> failed_proxies self' = {})"
  using get_next_proxy_all_failed_returns_first
    [of "mark_proxy_failed (mark_proxy_failed (mark_proxy_failed example_chain proxy_a) proxy_b) proxy_c"]
  by (simp add: mark_proxy_failed_def example_chain_def)

text \<open>
  C10: for a non-empty pool (with the rotation index in range), a call made while every
  endpoint's identifier is in the failed set leaves the rotation index at its value before
  the call: the scan advances it once per endpoint, back to where it started.
\<close>

theorem get_next_proxy_all_failed_keeps_index:
  assumes "proxies self \<noteq> []"
    and "\<forall>p\<in>set (proxies self). proxy_id p \<in> failed_proxies self"
    and "current_index self < length (proxies self)"
  shows "\<exists>res self'. get_next_proxy self = Inr (res, self')
           \<and> current_index self' = current_index self"
  using get_next_proxy_full_reset[OF assms] by simp

text \<open>
  The pool \<open>a, b, c\<close> with the index at 1 and all three marked failed: the call returns
  endpoint 0 and the index is still 1, so the call after it returns \<open>b\<close>.
\<close>

theorem get_next_proxy_all_failed_keeps_index_witness:
  "proxies failed_chain \<noteq> []
   \<and> proxy_id proxy_a \<in> failed_proxies failed_chain
   \<and> proxy_id proxy_b \<in> failed_proxies failed_chain
   \<and> proxy_id proxy_c \<in> failed_proxies failed_chain
   \<and> current_index failed_chain = 1
   \<and> (\<exists>res self'. get_next_proxy failed_chain = Inr (res, self') \<and> current_index self' = 1)
   \<and> (\<exists>self'. get_next_proxy_calls 2 failed_chain = Inr ([Some proxy_a, Some proxy_b], self'))"
proof -
  have basics: "proxies failed_chain = [proxy_a, proxy_b, proxy_c]" "current_index failed_chain = 1"
    "failed_proxies failed_chain = {proxy_id proxy_a, proxy_id proxy_b, proxy_id proxy_c}"
    by (simp_all add: failed_chain_def example_chain_def)
  have hyps: "proxies failed_chain \<noteq> []"
    "\<forall>p\<in>set (proxies failed_chain). proxy_id p \<in> failed_proxies failed_chain"
    "current_index failed_chain < length (proxies failed_chain)"
    by (simp_all add: basics)
  have index: "\<exists>res self'. get_next_proxy failed_chain = Inr (res, self') \<and> current_index self' = 1"
    using get_next_proxy_all_failed_keeps_index[OF hyps] by (simp add: basics)
  have first: "get_next_proxy failed_chain = Inr (Some proxy_a, failed_chain\<lparr>failed_proxies := {}\<rparr>)"
    using get_next_proxy_full_reset[OF hyps] by (simp add: basics)
  have second: "get_next_proxy (failed_chain\<lparr>failed_proxies := {}\<rparr>)
      = Inr (Some proxy_b, failed_chain\<lparr>failed_proxies := {}, current_index := 2\<rparr>)"
    using get_next_proxy_none_failed[of "failed_chain\<lparr>failed_proxies := {}\<rparr>"]
    by (simp add: basics)
  have "get_next_proxy_calls (Suc (Suc 0)) failed_chain
      = Inr ([Some proxy_a, Some proxy_b], failed_chain\<lparr>failed_proxies := {}, current_index := 2\<rparr>)"
    by (simp add: first second)
  then have calls: "\<exists>self'. get_next_proxy_calls 2 failed_chain = Inr ([Some proxy_a, Some proxy_b], self')"
    by (simp add: numeral_2_eq_2)
  show ?thesis
    using index calls by (simp add: basics)
qed

section \<open>Proxy chain: round robin\<close>

lemma get_next_proxy_calls_none_failed:
  assumes "failed_proxies self = {}"
    and "current_index self < length (proxies self)"
  shows "get_next_proxy_calls k self =
    Inr (map (\<lambda>j. Some (proxies self ! ((current_index self + j) mod length (proxies self)))) [0..<k],
         self\<lparr>current_index := (current_index self + k) mod length (proxies self)\<rparr>)"
  using assms
proof (induction k arbitrary: self)
  case 0
  then show ?case by simp
next
  case (Suc k)
  let ?n = "length (proxies self)"
  let ?self' = "self\<lparr>current_index := (current_index self + 1) mod ?n\<rparr>"
  have step: "get_next_proxy self = Inr (Some (proxies self ! current_index self), ?self')"
    using Suc.prems by (rule get_next_proxy_none_failed)
  have rest: "get_next_proxy_calls k ?self' =
    Inr (map (\<lambda>j. Some (proxies ?self' ! ((current_index ?self' + j) mod length (proxies ?self')))) [0..<k],
         ?self'\<lparr>current_index := (current_index ?self' + k) mod length (proxies ?self')\<rparr>)"
    using Suc.prems by (intro Suc.IH) (simp_all add: next_index_in_range)
  have shift: "map (\<lambda>j. Some (proxies self ! ((current_index self + j) mod ?n))) [0..<Suc k]
    = Some (proxies self ! current_index self)
      # map (\<lambda>j. Some (proxies self ! (((current_index self + 1) mod ?n + j) mod ?n))) [0..<k]"
    using Suc.prems(2)
    by (simp add: upt_conv_Cons map_Suc_upt[symmetric] mod_simps del: upt_Suc)
  show ?case
    unfolding get_next_proxy_calls.simps step shift using rest
    by (simp add: mod_simps)
qed

lemma rotate_as_index_map:
  assumes "i < length xs"
  shows "map (\<lambda>j. Some (xs ! ((i + j) mod length xs))) [0..<length xs] = map Some (rotate i xs)"
  by (rule nth_equalityI) (simp_all add: nth_rotate)

lemma mset_rotate_eq: "mset (rotate i xs) = mset xs"
proof -
  have "mset (drop (i mod length xs) xs @ take (i mod length xs) xs)
      = mset (take (i mod length xs) xs @ drop (i mod length xs) xs)"
    by (simp only: mset_append add.commute)
  then show ?thesis
    by (simp add: rotate_drop_take)
qed

text \<open>
  C5: for a pool of size \<open>n \<ge> 1\<close> with an empty failed set (and the rotation index in
  range), \<open>n\<close> consecutive calls return the pool rotated to start at the current index:
  the endpoint at every position exactly once, in order with wraparound. The chain is then
  back in the state it started from, so the next call begins the same cycle again.
\<close>

theorem get_next_proxy_round_robin:
  assumes "proxies self \<noteq> []"
    and "failed_proxies self = {}"
    and "current_index self < length (proxies self)"
  shows "get_next_proxy_calls (length (proxies self)) self
           = Inr (map Some (rotate (current_index self) (proxies self)), self)
         \<and> mset (rotate (current_index self) (proxies self)) = mset (proxies self)"
proof -
  have "(current_index self + length (proxies self)) mod length (proxies self) = current_index self"
    using assms(3) by simp
  then show ?thesis
    using get_next_proxy_calls_none_failed[OF assms(2,3), of "length (proxies self)"]
      rotate_as_index_map[OF assms(3)]
    by (simp add: mset_rotate_eq)
qed

text \<open>The pool \<open>a, b, c\<close> with the index at 1: three calls return \<open>b\<close>, \<open>c\<close>, \<open>a\<close>.\<close>

theorem get_next_proxy_round_robin_witness:
  "proxies example_chain \<noteq> [] \<and> failed_proxies example_chain = {}
   \<and> current_index example_chain < length (proxies example_chain)
   \<and> get_next_proxy_calls 3 example_chain
       = Inr ([Some proxy_b, Some proxy_c, Some proxy_a], example_chain)"
  using get_next_proxy_round_robin [of example_chain]
  by (simp add: example_chain_def numeral_3_eq_3)

section \<open>Target resolution: precedence\<close>

text \<open>
  C3: the target is the value of the query parameter \<open>url\<close> when that is non-empty
  (whatever the header says); otherwise the value of the header \<open>X-Target-URL\<close> when that
  is non-empty; otherwise the non-empty path, with \<open>http://\<close> put in front unless it
  starts with \<open>http://\<close> or \<open>https://\<close>; and when none of the three is non-empty there is no
  target, and the handler answers 400 with the error "No target URL specified".
\<close>

theorem get_target_url_precedence:
  "(truthy (args_get (req_args request) ''url'') \<longrightarrow>
      get_target_url request path = args_get (req_args request) ''url'')
   \<and> (\<not> truthy (args_get (req_args request) ''url'')
        \<and> truthy (headers_get (req_headers request) ''X-Target-URL'') \<longrightarrow>
      get_target_url request path = headers_get (req_headers request) ''X-Target-URL'')
   \<and> (\<not> truthy (args_get (req_args request) ''url'')
        \<and> \<not> truthy (headers_get (req_headers request) ''X-Target-URL'')
        \<and> path \<noteq> [] \<longrightarrow>
      get_target_url request path =
        Some (if prefix ''http://'' path \<or> prefix ''https://'' path then path
              else ''http://'' @ path))
   \<and> (\<not> truthy (args_get (req_args request) ''url'')
        \<and> \<not> truthy (headers_get (req_headers request) ''X-Target-URL'')
        \<and> path = [] \<longrightarrow>
      get_target_url request path = None
      \<and> fst (handle_request self session r request path)
          = jsonify_error ''No target URL specified'' 400)"
  by (simp add: get_target_url_def Let_def handle_request_def handle_request_try_def
      except_clauses_def)

lemma example_request_lookups:
  "args_get (req_args example_request) ''url'' = Some ''http://a.example/q''"
  "headers_get (req_headers example_request) ''X-Target-URL'' = Some ''http://b.example/h''"
  by (simp_all add: example_request_def args_get_def headers_get_def lower_def lower_char_def)

text \<open>
  A request with both the query parameter and the header resolves to the query parameter;
  with the parameter empty, to the header; with neither, the bare path \<open>example.com/x\<close>
  resolves to \<open>http://example.com/x\<close> and an \<open>https://\<close> path is kept; with neither and an empty
  path there is no target and the status is 400.
\<close>

theorem get_target_url_precedence_witness:
  "truthy (args_get (req_args example_request) ''url'')
   \<and> truthy (headers_get (req_headers example_request) ''X-Target-URL'')
   \<and> get_target_url example_request ''example.com/x'' = Some ''http://a.example/q''
   \<and> get_target_url (example_request\<lparr>req_args := [(''url'', [])]\<rparr>) ''example.com/x''
       = Some ''http://b.example/h''
   \<and> get_target_url (example_request\<lparr>req_args := [], req_headers := []\<rparr>) ''example.com/x''
       = Some ''http://example.com/x''
   \<and> get_target_url (example_request\<lparr>req_args := [], req_headers := []\<rparr>) ''https://example.com/x''
       = Some ''https://example.com/x''
   \<and> get_target_url (example_request\<lparr>req_args := [], req_headers := []\<rparr>) [] = None
   \<and> status (fst (handle_request limited_server ok_session 0
                    (example_request\<lparr>req_args := [], req_headers := []\<rparr>) [])) = 400"
proof -
  note q = example_request_lookups(1) and h = example_request_lookups(2)
  have none: "args_get [] ''url'' = None" "headers_get [] ''X-Target-URL'' = None"
    by (simp_all add: args_get_def headers_get_def)
  have "get_target_url example_request ''example.com/x'' = Some ''http://a.example/q''"
    using get_target_url_precedence [of example_request "''example.com/x''"]
    by (simp add: q truthy_def)
  moreover have "get_target_url (example_request\<lparr>req_args := [(''url'', [])]\<rparr>) ''example.com/x''
       = Some ''http://b.example/h''"
    using get_target_url_precedence [of "example_request\<lparr>req_args := [(''url'', [])]\<rparr>" "''example.com/x''"]
    by (simp add: h truthy_def args_get_def)
  moreover have "get_target_url (example_request\<lparr>req_args := [], req_headers := []\<rparr>) ''example.com/x''
       = Some ''http://example.com/x''"
    using get_target_url_precedence [of "example_request\<lparr>req_args := [], req_headers := []\<rparr>" "''example.com/x''"]
    by (simp add: none truthy_def)
  moreover have "get_target_url (example_request\<lparr>req_args := [], req_headers := []\<rparr>) ''https://example.com/x''
       = Some ''https://example.com/x''"
    using get_target_url_precedence [of "example_request\<lparr>req_args := [], req_headers := []\<rparr>" "''https://example.com/x''"]
    by (simp add: none truthy_def)
  moreover have "get_target_url (example_request\<lparr>req_args := [], req_headers := []\<rparr>) [] = None
     \<and> status (fst (handle_request limited_server ok_session 0
                    (example_request\<lparr>req_args := [], req_headers := []\<rparr>) [])) = 400"
    using get_target_url_precedence [of "example_request\<lparr>req_args := [], req_headers := []\<rparr>" "[]"
        limited_server ok_session 0]
    by (simp add: none truthy_def jsonify_error_def)
  ultimately show ?thesis
    by (simp add: q h truthy_def)
qed

section \<open>Response builder: what is copied and what is set\<close>

lemma has_header_ci_pop:
  "has_header_ci (headers_pop key hs) n \<longleftrightarrow> lower n \<noteq> lower key \<and> has_header_ci hs n"
  by (induction hs) (auto simp: has_header_ci_def headers_pop_def)

lemma has_header_ci_set:
  "has_header_ci (headers_set key val hs) n \<longleftrightarrow> lower n = lower key \<or> has_header_ci hs n"
proof (induction hs)
  case Nil
  then show ?case by (auto simp: has_header_ci_def)
next
  case (Cons h hs)
  have "has_header_ci (h # hs) n \<longleftrightarrow> lower n = lower (fst h) \<or> has_header_ci hs n"
    by (auto simp: has_header_ci_def)
  moreover have "has_header_ci (h # headers_set key val hs) n
      \<longleftrightarrow> lower n = lower (fst h) \<or> has_header_ci (headers_set key val hs) n"
    by (auto simp: has_header_ci_def)
  moreover have "has_header_ci ((key, val) # headers_pop key hs) n
      \<longleftrightarrow> lower n = lower key \<or> has_header_ci (headers_pop key hs) n"
    by (auto simp: has_header_ci_def)
  ultimately show ?case
    using Cons.IH by (auto simp: has_header_ci_pop)
qed

lemma headers_get_set: "headers_get (headers_set key val hs) key = Some val"
  by (induction hs) (auto simp: headers_get_def)

text \<open>Removing or setting one name leaves the lookup of every other name as it was.\<close>

lemma headers_get_pop_other:
  "lower n \<noteq> lower key \<Longrightarrow> headers_get (headers_pop key hs) n = headers_get hs n"
  by (induction hs) (auto simp: headers_get_def headers_pop_def)

lemma headers_get_set_other:
  "lower n \<noteq> lower key \<Longrightarrow> headers_get (headers_set key val hs) n = headers_get hs n"
proof (induction hs)
  case Nil
  then show ?case by (simp add: headers_get_def)
next
  case (Cons h hs)
  have pop: "headers_get ((key, val) # headers_pop key hs) n = headers_get (headers_pop key hs) n"
    using Cons.prems by (simp add: headers_get_def)
  have tl: "lower (fst h) = lower key \<Longrightarrow> headers_get (h # hs) n = headers_get hs n"
    using Cons.prems by (cases h) (simp add: headers_get_def)
  have hd: "headers_get (h # headers_set key val hs) n
      = (if lower (fst h) = lower n then Some (snd h) else headers_get (headers_set key val hs) n)"
    "headers_get (h # hs) n = (if lower (fst h) = lower n then Some (snd h) else headers_get hs n)"
    by (cases h; simp add: headers_get_def)+
  show ?case
  proof (cases "lower (fst h) = lower key")
    case True
    then show ?thesis
      using pop tl Cons.prems by (simp add: headers_get_pop_other)
  next
    case False
    then show ?thesis
      using Cons.IH[OF Cons.prems] hd by simp
  qed
qed

text \<open>Removing or setting a name of the set \<open>S\<close> does not touch the entries outside \<open>S\<close>.\<close>

lemma filter_headers_pop:
  "lower key \<in> S \<Longrightarrow>
   filter (\<lambda>(k, v). lower k \<notin> S) (headers_pop key hs) = filter (\<lambda>(k, v). lower k \<notin> S) hs"
  by (induction hs) (auto simp: headers_pop_def)

lemma filter_headers_set:
  "lower key \<in> S \<Longrightarrow>
   filter (\<lambda>(k, v). lower k \<notin> S) (headers_set key val hs) = filter (\<lambda>(k, v). lower k \<notin> S) hs"
  by (induction hs) (auto simp: filter_headers_pop)

text \<open>Setting a name the list does not have appends the entry.\<close>

lemma headers_set_absent:
  "\<not> has_header_ci hs key \<Longrightarrow> headers_set key val hs = hs @ [(key, val)]"
  by (induction hs) (auto simp: has_header_ci_def)

lemma lower_names:
  "lower ''Content-Encoding'' = ''content-encoding''"
  "lower ''Transfer-Encoding'' = ''transfer-encoding''"
  "lower ''Connection'' = ''connection''"
  "lower ''X-Proxied-By'' = ''x-proxied-by''"
  "lower ''Content-Length'' = ''content-length''"
  "lower ''Content-Type'' = ''content-type''"
  by (simp_all add: lower_def lower_char_def)

lemma str_nat_examples: "str_nat (length ''ok'') = ''2''" "str_nat (length ''hello'') = ''5''"
  by code_simp+

text \<open>The headers the constructor starts from: the given ones and, when they have no
  Content-Type, the default one.\<close>

lemma Response_init_fields:
  "status (Response_init b st hs) = st"
  "data (Response_init b st hs) = Bytes b"
  "resp_headers (Response_init b st hs)
     = headers_set ''Content-Length'' (str_nat (length b))
         (hs @ (if has_header_ci hs ''Content-Type'' then []
                else [(''Content-Type'', ''text/html; charset=utf-8'')]))"
  by (simp_all add: Response_init_def Let_def headers_set_absent)

text \<open>
  C6 as stated does not hold: an upstream Content-Length is not copied. For an upstream
  answer with the headers Content-Type, \<open>Content-Length: 999\<close> and Content-Encoding and the
  five-byte body \<open>hello\<close>, the built response has \<open>Content-Length: 5\<close>, so its headers other
  than the three removed ones and X-Proxied-By are not the upstream ones.
\<close>

theorem create_response_content_length_counterexample:
  "headers_get (up_headers gzip_upstream) ''Content-Length'' = Some ''999''
   \<and> resp_headers (create_response gzip_upstream)
       = [(''Content-Type'', ''text/plain''), (''Content-Length'', ''5''),
          (''X-Proxied-By'', ''CustomProxy/1.0'')]
   \<and> filter (\<lambda>(k, v). lower k \<notin> set (map lower response_only_names))
         (resp_headers (create_response gzip_upstream))
     \<noteq> filter (\<lambda>(k, v). lower k \<notin> set (map lower response_only_names))
         (up_headers gzip_upstream)"
  by code_simp

text \<open>
  C6, amended: the built response has the upstream status code and the upstream body; it
  carries \<open>X-Proxied-By: CustomProxy/1.0\<close>; it has no header named Content-Encoding,
  Transfer-Encoding or Connection in any letter case; its Content-Length is the length of
  the body; and its other headers (all but these five names) are the upstream ones in the
  same order, followed by the default Content-Type \<open>text/html; charset=utf-8\<close> when the
  upstream has no Content-Type.
\<close>

theorem create_response_copies_and_reframes:
  "status (create_response up) = status_code up
   \<and> data (create_response up) = Bytes (content up)
   \<and> headers_get (resp_headers (create_response up)) ''X-Proxied-By'' = Some ''CustomProxy/1.0''
   \<and> \<not> has_header_ci (resp_headers (create_response up)) ''Content-Encoding''
   \<and> \<not> has_header_ci (resp_headers (create_response up)) ''Transfer-Encoding''
   \<and> \<not> has_header_ci (resp_headers (create_response up)) ''Connection''
   \<and> headers_get (resp_headers (create_response up)) ''Content-Length''
       = Some (str_nat (length (content up)))
   \<and> filter (\<lambda>(k, v). lower k \<notin> set (map lower reframed_names))
         (resp_headers (create_response up))
     = filter (\<lambda>(k, v). lower k \<notin> set (map lower reframed_names))
         (up_headers up @ (if has_header_ci (up_headers up) ''Content-Type'' then []
                           else [(''Content-Type'', ''text/html; charset=utf-8'')]))"
proof -
  define S where "S = set (map lower reframed_names)"
  define hs where "hs = up_headers up @ (if has_header_ci (up_headers up) ''Content-Type'' then []
                           else [(''Content-Type'', ''text/html; charset=utf-8'')])"
  define len where "len = str_nat (length (content up))"
  have out: "resp_headers (create_response up)
      = headers_set ''X-Proxied-By'' ''CustomProxy/1.0''
          (headers_pop ''Connection'' (headers_pop ''Transfer-Encoding''
            (headers_pop ''Content-Encoding'' (headers_set ''Content-Length'' len hs))))"
    by (simp add: create_response_def Let_def Response_init_fields hs_def len_def)
  have mem: "lower ''Content-Encoding'' \<in> S" "lower ''Transfer-Encoding'' \<in> S"
    "lower ''Connection'' \<in> S" "lower ''X-Proxied-By'' \<in> S" "lower ''Content-Length'' \<in> S"
    by (simp_all add: reframed_names_def response_only_names_def S_def)
  have kept: "filter (\<lambda>(k, v). lower k \<notin> S) (resp_headers (create_response up))
     = filter (\<lambda>(k, v). lower k \<notin> S) hs"
    unfolding out
    by (simp only: filter_headers_set[OF mem(4)] filter_headers_pop[OF mem(1)]
        filter_headers_pop[OF mem(2)] filter_headers_pop[OF mem(3)] filter_headers_set[OF mem(5)])
  have gone: "\<not> has_header_ci (resp_headers (create_response up)) ''Content-Encoding''"
    "\<not> has_header_ci (resp_headers (create_response up)) ''Transfer-Encoding''"
    "\<not> has_header_ci (resp_headers (create_response up)) ''Connection''"
    unfolding out by (simp_all add: has_header_ci_set has_header_ci_pop lower_names)
  have length: "headers_get (resp_headers (create_response up)) ''Content-Length'' = Some len"
    unfolding out
    by (simp add: headers_get_set_other headers_get_pop_other headers_get_set lower_names)
  have proxied: "headers_get (resp_headers (create_response up)) ''X-Proxied-By''
      = Some ''CustomProxy/1.0''"
    unfolding out by (rule headers_get_set)
  have fields: "status (create_response up) = status_code up"
    "data (create_response up) = Bytes (content up)"
    by (simp_all add: create_response_def Let_def Response_init_fields)
  from fields proxied gone length kept show ?thesis
    unfolding S_def hs_def len_def by (intro conjI)
qed

lemma create_response_example_headers:
  "resp_headers (create_response example_upstream)
   = [(''Content-Type'', ''text/plain''), (''Server'', ''nginx''), (''Content-Length'', ''2''),
      (''X-Proxied-By'', ''CustomProxy/1.0'')]"
  by code_simp

lemma create_response_no_content_type:
  "resp_headers (create_response \<lparr>content = ''ok'', status_code = 200, up_headers = []\<rparr>)
   = [(''Content-Type'', ''text/html; charset=utf-8''), (''Content-Length'', ''2''),
      (''X-Proxied-By'', ''CustomProxy/1.0'')]"
  by code_simp

text \<open>
  A 200 upstream response with body \<open>ok\<close> and the three headers among its own: the built
  response has status 200, body \<open>ok\<close>, the upstream Content-Type and Server headers,
  \<open>Content-Length: 2\<close> and X-Proxied-By.
\<close>

theorem create_response_copies_and_reframes_witness:
  "status (create_response example_upstream) = 200
   \<and> data (create_response example_upstream) = Bytes ''ok''
   \<and> headers_get (resp_headers (create_response example_upstream)) ''X-Proxied-By''
       = Some ''CustomProxy/1.0''
   \<and> \<not> has_header_ci (resp_headers (create_response example_upstream)) ''Content-Encoding''
   \<and> \<not> has_header_ci (resp_headers (create_response example_upstream)) ''Transfer-Encoding''
   \<and> \<not> has_header_ci (resp_headers (create_response example_upstream)) ''Connection''
   \<and> headers_get (resp_headers (create_response example_upstream)) ''Content-Length'' = Some ''2''
   \<and> resp_headers (create_response example_upstream)
       = [(''Content-Type'', ''text/plain''), (''Server'', ''nginx''), (''Content-Length'', ''2''),
          (''X-Proxied-By'', ''CustomProxy/1.0'')]"
proof -
  have up: "status_code example_upstream = 200" "content example_upstream = ''ok''"
    by (simp_all add: example_upstream_def)
  show ?thesis
    using create_response_copies_and_reframes [of example_upstream]
      create_response_example_headers
    unfolding up str_nat_examples by simp
qed

section \<open>Header transformer: which names survive\<close>

lemma dict_contains_pop: "dict_contains (dict_pop k d) h \<longleftrightarrow> h \<noteq> k \<and> dict_contains d h"
  by (auto simp: dict_contains_def dict_pop_def delete_conv)

lemma dict_contains_fold_pop:
  "dict_contains (fold dict_pop ks d) h \<longleftrightarrow> h \<notin> set ks \<and> dict_contains d h"
  by (induction ks arbitrary: d) (auto simp: dict_contains_pop)

lemma dict_contains_set: "dict_contains (dict_set k v d) h \<longleftrightarrow> h = k \<or> dict_contains d h"
  by (auto simp: dict_contains_def dict_set_def update_conv')

lemma dict_contains_update:
  "dict_contains (dict_update other d) h \<longleftrightarrow> h \<in> fst ` set other \<or> dict_contains d h"
  unfolding dict_update_def
  by (induction other arbitrary: d) (auto simp: dict_contains_set)

text \<open>
  The names of the transformer's output, compared exactly: the added ones, the inbound
  ones that are neither in the removal list nor Host or Content-Length, and User-Agent
  when the pool is not empty.
\<close>

lemma prepare_headers_contains:
  "dict_contains (prepare_headers cfg original_headers r) h \<longleftrightarrow>
     h \<in> fst ` set (add_headers cfg)
     \<or> (h \<notin> set (remove_headers cfg) \<and> h \<noteq> ''Host'' \<and> h \<noteq> ''Content-Length''
         \<and> dict_contains original_headers h)
     \<or> (h = ''User-Agent'' \<and> user_agents cfg \<noteq> [])"
  by (auto simp: prepare_headers_def Let_def dict_contains_set dict_contains_update
      dict_contains_pop dict_contains_fold_pop)

lemma sanitize_headers_contains:
  "dict_contains (sanitize_headers headers remove_privacy) h \<longleftrightarrow>
     (remove_privacy \<longrightarrow> h \<notin> set PRIVACY_HEADERS) \<and> h \<noteq> ''Host'' \<and> h \<noteq> ''Content-Length''
     \<and> dict_contains headers h"
  by (auto simp: sanitize_headers_def Let_def dict_contains_fold_pop dict_contains_pop)

text \<open>The same slip in the utility: a lower-case X-Forwarded-For passes through.\<close>

lemma sanitize_headers_keeps_lower_case:
  "sanitize_headers [(''x-forwarded-for'', ''192.168.1.100'')] True
     = [(''x-forwarded-for'', ''192.168.1.100'')]"
  by code_simp

lemma prepare_headers_example:
  "prepare_headers default_config
     [(''X-Real-Ip'', ''10.0.0.1''), (''User-Agent'', ''curl/8.5.0'')] 0
   = [(''X-Real-Ip'', ''10.0.0.1''), (''User-Agent'', ''curl/8.5.0''),
      (''X-Proxy-Server'', ''CustomProxy/1.0''), (''Accept-Encoding'', ''gzip, deflate''),
      (''Connection'', ''close'')]"
  by (simp add: default_config_def prepare_headers_def dict_pop_def dict_set_def
      dict_update_def dict_contains_def)

lemma prepare_headers_example_ci:
  "has_header_ci
     [(''X-Real-Ip'', ''10.0.0.1''), (''User-Agent'', ''curl/8.5.0''),
      (''X-Proxy-Server'', ''CustomProxy/1.0''), (''Accept-Encoding'', ''gzip, deflate''),
      (''Connection'', ''close'')]
     ''X-Real-IP''"
  by (simp add: has_header_ci_def lower_def lower_char_def)

text \<open>
  C1, at an input where the code departs from it: with the default configuration, whose
  removal list has \<open>X-Real-IP\<close>, an inbound header written \<open>X-Real-Ip\<close> is still in the
  transformer's output, with its value, although the two names are equal without regard
  to letter case. The removal is \<^verbatim>\<open>dict.pop\<close> on a plain dictionary, which compares names
  exactly.
\<close>

theorem prepare_headers_keeps_other_letter_case:
  "''X-Real-IP'' \<in> set (remove_headers default_config)
   \<and> lower ''X-Real-Ip'' = lower ''X-Real-IP''
   \<and> map_of (prepare_headers default_config
               [(''X-Real-Ip'', ''10.0.0.1''), (''User-Agent'', ''curl/8.5.0'')] 0)
        ''X-Real-Ip'' = Some ''10.0.0.1''
   \<and> has_header_ci
        (prepare_headers default_config
           [(''X-Real-Ip'', ''10.0.0.1''), (''User-Agent'', ''curl/8.5.0'')] 0)
        ''X-Real-IP''"
proof -
  let ?out = "prepare_headers default_config
               [(''X-Real-Ip'', ''10.0.0.1''), (''User-Agent'', ''curl/8.5.0'')] 0"
  have c1: "''X-Real-IP'' \<in> set (remove_headers default_config)"
    by (simp add: default_config_def)
  have c2: "lower ''X-Real-Ip'' = lower ''X-Real-IP''"
    by (simp add: lower_def lower_char_def)
  have c3: "map_of ?out ''X-Real-Ip'' = Some ''10.0.0.1''"
    unfolding prepare_headers_example by simp
  have c4: "has_header_ci ?out ''X-Real-IP''"
    unfolding prepare_headers_example by (rule prepare_headers_example_ci)
  from c1 c2 c3 c4 show ?thesis
    by (intro conjI)
qed

section \<open>Request pipeline: how failures are answered\<close>

text \<open>The rate-limit check of the source never reports an exceeded limit.\<close>

lemma rate_limit_exceeded_never: "rate_limit_exceeded self = False"
  by (simp add: rate_limit_exceeded_def)

text \<open>The counter goes up by one on every request, whatever the outcome.\<close>

lemma handle_request_counts:
  "request_count (snd (handle_request self session r request path)) = request_count self + 1"
  by (simp add: handle_request_def Let_def)

text \<open>The handler is its \<^verbatim>\<open>try\<close> block under the two \<^verbatim>\<open>except\<close> clauses.\<close>

lemma handle_request_boundary:
  "fst (handle_request self session r request path)
   = except_clauses
       (handle_request_try (self\<lparr>request_count := request_count self + 1\<rparr>)
          (rate_limit_exceeded (self\<lparr>request_count := request_count self + 1\<rparr>))
          session r request path)"
  by (simp add: handle_request_def Let_def)

text \<open>
  With the check as it is in the source, the outcomes of the handler are: 400 without a
  target, 502 when the dispatch raises a \<^verbatim>\<open>RequestException\<close>, 500 when it raises anything
  else, and otherwise the response built from the upstream one.
\<close>

lemma handle_request_outcomes:
  "fst (handle_request self session r request path) =
     (case get_target_url request path of
        None \<Rightarrow> jsonify_error ''No target URL specified'' 400
      | Some target_url \<Rightarrow>
          if target_url = [] then jsonify_error ''No target URL specified'' 400
          else
            (case session (req_method request) target_url
                    (prepare_headers (config self) (req_headers request) r)
                    (req_data request) (req_args request) of
               Inl (RequestException e) \<Rightarrow> jsonify_error (''Request failed: '' @ e) 502
             | Inl (OtherException e) \<Rightarrow> jsonify_error ''Internal proxy error'' 500
             | Inr response \<Rightarrow> create_response response))"
  by (simp add: handle_request_def handle_request_try_def except_clauses_def Let_def
      rate_limit_exceeded_never make_request_def split: option.splits sum.splits exn.splits)

lemma example_request_target:
  "get_target_url example_request [] = Some ''http://a.example/q''"
  by (simp add: get_target_url_def example_request_def args_get_def truthy_def)

lemma no_target_request:
  "get_target_url (example_request\<lparr>req_args := [], req_headers := []\<rparr>) [] = None"
  by (simp add: get_target_url_def args_get_def headers_get_def truthy_def)

text \<open>
  C7: whatever the \<^verbatim>\<open>try\<close> block of the handler does, the handler returns a response.
  A response the block returns is passed on; a \<^verbatim>\<open>RequestException\<close> raised anywhere in
  it is answered 502 and any other exception 500, so none leaves the handler. The block
  answers 400 when no target is resolved and 429 when the rate-limit check reports an
  exceeded limit; with a target and the limit not exceeded, a dispatch that raises a
  \<^verbatim>\<open>RequestException\<close> is answered 502 and one that raises anything else 500.
\<close>

theorem handle_request_maps_failures:
  "except_clauses (Inr response) = response
   \<and> except_clauses (Inl (RequestException e)) = jsonify_error (''Request failed: '' @ e) 502
   \<and> except_clauses (Inl (OtherException e)) = jsonify_error ''Internal proxy error'' 500
   \<and> status (jsonify_error message st) = st
   \<and> (\<not> truthy (get_target_url request path) \<longrightarrow>
        except_clauses (handle_request_try self limited session r request path)
          = jsonify_error ''No target URL specified'' 400
        \<and> fst (handle_request self session r request path)
          = jsonify_error ''No target URL specified'' 400)
   \<and> (truthy (get_target_url request path) \<and> limited \<longrightarrow>
        except_clauses (handle_request_try self limited session r request path)
          = jsonify_error ''Rate limit exceeded'' 429)
   \<and> (get_target_url request path = Some u \<and> u \<noteq> [] \<and> \<not> limited
        \<and> session (req_method request) u (prepare_headers (config self) (req_headers request) r)
              (req_data request) (req_args request) = Inl (RequestException e) \<longrightarrow>
        except_clauses (handle_request_try self limited session r request path)
          = jsonify_error (''Request failed: '' @ e) 502
        \<and> fst (handle_request self session r request path)
          = jsonify_error (''Request failed: '' @ e) 502)
   \<and> (get_target_url request path = Some u \<and> u \<noteq> [] \<and> \<not> limited
        \<and> session (req_method request) u (prepare_headers (config self) (req_headers request) r)
              (req_data request) (req_args request) = Inl (OtherException e) \<longrightarrow>
        except_clauses (handle_request_try self limited session r request path)
          = jsonify_error ''Internal proxy error'' 500
        \<and> fst (handle_request self session r request path)
          = jsonify_error ''Internal proxy error'' 500)"
proof -
  have boundary: "except_clauses (Inr response) = response"
    "except_clauses (Inl (RequestException e)) = jsonify_error (''Request failed: '' @ e) 502"
    "except_clauses (Inl (OtherException e)) = jsonify_error ''Internal proxy error'' 500"
    "status (jsonify_error message st) = st"
    by (simp_all add: except_clauses_def jsonify_error_def)
  have block: "\<not> truthy (get_target_url request path) \<longrightarrow>
        except_clauses (handle_request_try self limited session r request path)
          = jsonify_error ''No target URL specified'' 400"
    "truthy (get_target_url request path) \<and> limited \<longrightarrow>
        except_clauses (handle_request_try self limited session r request path)
          = jsonify_error ''Rate limit exceeded'' 429"
    "get_target_url request path = Some u \<and> u \<noteq> [] \<and> \<not> limited
        \<and> session (req_method request) u (prepare_headers (config self) (req_headers request) r)
              (req_data request) (req_args request) = Inl (RequestException e) \<longrightarrow>
        except_clauses (handle_request_try self limited session r request path)
          = jsonify_error (''Request failed: '' @ e) 502"
    "get_target_url request path = Some u \<and> u \<noteq> [] \<and> \<not> limited
        \<and> session (req_method request) u (prepare_headers (config self) (req_headers request) r)
              (req_data request) (req_args request) = Inl (OtherException e) \<longrightarrow>
        except_clauses (handle_request_try self limited session r request path)
          = jsonify_error ''Internal proxy error'' 500"
    by (auto simp: handle_request_try_def except_clauses_def truthy_def make_request_def Let_def
        split: option.splits)
  have whole: "\<not> truthy (get_target_url request path) \<longrightarrow>
        fst (handle_request self session r request path)
          = jsonify_error ''No target URL specified'' 400"
    "get_target_url request path = Some u \<and> u \<noteq> []
        \<and> session (req_method request) u (prepare_headers (config self) (req_headers request) r)
              (req_data request) (req_args request) = Inl (RequestException e) \<longrightarrow>
        fst (handle_request self session r request path)
          = jsonify_error (''Request failed: '' @ e) 502"
    "get_target_url request path = Some u \<and> u \<noteq> []
        \<and> session (req_method request) u (prepare_headers (config self) (req_headers request) r)
              (req_data request) (req_args request) = Inl (OtherException e) \<longrightarrow>
        fst (handle_request self session r request path)
          = jsonify_error ''Internal proxy error'' 500"
    by (auto simp: handle_request_outcomes truthy_def split: option.splits)
  from boundary block whole show ?thesis
    by blast
qed

text \<open>
  A request without a target is answered 400; a request with a target is answered 429
  when the check reports an exceeded limit, 502 when the dispatch times out and 500 when
  it raises another exception; and a dispatch that succeeds is answered with the upstream
  status.
\<close>

theorem handle_request_maps_failures_witness:
  "\<not> truthy (get_target_url (example_request\<lparr>req_args := [], req_headers := []\<rparr>) [])
   \<and> fst (handle_request limited_server ok_session 0
            (example_request\<lparr>req_args := [], req_headers := []\<rparr>) [])
       = jsonify_error ''No target URL specified'' 400
   \<and> truthy (get_target_url example_request [])
   \<and> except_clauses (handle_request_try limited_server True ok_session 0 example_request [])
       = jsonify_error ''Rate limit exceeded'' 429
   \<and> status (except_clauses
               (handle_request_try limited_server True ok_session 0 example_request [])) = 429
   \<and> fst (handle_request limited_server timeout_session 0 example_request [])
       = jsonify_error ''Request failed: Read timed out'' 502
   \<and> fst (handle_request limited_server broken_session 0 example_request [])
       = jsonify_error ''Internal proxy error'' 500
   \<and> status (fst (handle_request limited_server ok_session 0 example_request [])) = 200"
proof -
  have no_target: "\<not> truthy (get_target_url (example_request\<lparr>req_args := [], req_headers := []\<rparr>) [])"
    by (simp add: no_target_request truthy_def)
  have target: "truthy (get_target_url example_request [])"
    by (simp add: example_request_target truthy_def)
  have c400: "fst (handle_request limited_server ok_session 0
            (example_request\<lparr>req_args := [], req_headers := []\<rparr>) [])
       = jsonify_error ''No target URL specified'' 400"
    using handle_request_maps_failures
      [where request = "example_request\<lparr>req_args := [], req_headers := []\<rparr>" and path = "[]"
        and self = limited_server and session = ok_session and r = 0]
      no_target
    by simp
  have c429: "except_clauses (handle_request_try limited_server True ok_session 0 example_request [])
       = jsonify_error ''Rate limit exceeded'' 429"
    using handle_request_maps_failures
      [where request = example_request and path = "[]" and self = limited_server
        and limited = True and session = ok_session and r = 0]
      target
    by simp
  have c502: "fst (handle_request limited_server timeout_session 0 example_request [])
       = jsonify_error ''Request failed: Read timed out'' 502"
    using handle_request_maps_failures
      [where request = example_request and path = "[]" and self = limited_server
        and limited = False and session = timeout_session and r = 0
        and u = "''http://a.example/q''" and e = "''Read timed out''"]
    by (simp add: example_request_target timeout_session_def)
  have c500: "fst (handle_request limited_server broken_session 0 example_request [])
       = jsonify_error ''Internal proxy error'' 500"
    using handle_request_maps_failures
      [where request = example_request and path = "[]" and self = limited_server
        and limited = False and session = broken_session and r = 0
        and u = "''http://a.example/q''" and e = "''unexpected''"]
    by (simp add: example_request_target broken_session_def)
  have c200: "status (fst (handle_request limited_server ok_session 0 example_request [])) = 200"
    by (simp add: handle_request_outcomes example_request_target ok_session_def
        create_response_def Let_def Response_init_fields example_upstream_def)
  from no_target target c400 c429 c502 c500 c200 show ?thesis
    by (simp add: jsonify_error_def)
qed

text \<open>
  With the check as it is in the source, a configured limit of one request per minute
  does not stop a second request: both are dispatched and counted.
\<close>

lemma handle_request_ignores_configured_limit:
  "rate_limit_enabled (config limited_server)
   \<and> requests_per_minute (config limited_server) = 1
   \<and> status (fst (handle_request limited_server ok_session 0 example_request [])) = 200
   \<and> status (fst (handle_request
                    (snd (handle_request limited_server ok_session 0 example_request []))
                    ok_session 0 example_request [])) = 200
   \<and> request_count (snd (handle_request
                    (snd (handle_request limited_server ok_session 0 example_request []))
                    ok_session 0 example_request [])) = 2"
proof -
  have cfg: "rate_limit_enabled (config limited_server)"
    "requests_per_minute (config limited_server) = 1" "request_count limited_server = 0"
    by (simp_all add: limited_server_def)
  have ok: "status (fst (handle_request self ok_session 0 example_request [])) = 200" for self
    by (simp add: handle_request_outcomes example_request_target ok_session_def
        create_response_def Let_def Response_init_fields example_upstream_def)
  show ?thesis
    by (simp add: cfg ok handle_request_counts)
qed

end
